theory Spec2Isabelle
  imports Complex_Main
begin

section \<open>Arithmetic of the C types\<close>

text \<open>
  The C type \<^verbatim>\<open>double\<close> is modelled by the reals together with a rounding operator
  \<open>fl\<close> that is applied to the result of every arithmetic operation, in the order in
  which the C expression evaluates (round(a op b), one rounding per operation, no fused
  multiply-add). Two roundings are used: \<open>exact\<close> (no rounding: the arithmetic of the
  reals, which is what a statement "up to floating-point rounding" is about) and
  \<open>binary64\<close> (IEEE 754 double precision, round to nearest, ties to even). The exponent
  range is unbounded: overflow, subnormal numbers, infinities and NaN are not modelled.
\<close>

type_synonym rounding = "real \<Rightarrow> real"

definition exact :: rounding where
  "exact x = x"

definition rne :: "real \<Rightarrow> int" where
  "rne y = (let f = \<lfloor>y\<rfloor> in
      if y - of_int f < 1 / 2 then f
      else if 1 / 2 < y - of_int f then f + 1
      else if even f then f else f + 1)"

definition binary64 :: rounding where
  "binary64 x = (if x = 0 then 0
     else (let e = \<lfloor>log 2 \<bar>x\<bar>\<rfloor> in of_int (rne (x * 2 powi (52 - e))) * 2 powi (e - 52)))"

text \<open>
  \<^verbatim>\<open>double**\<close>: a grid of doubles addressed as \<^verbatim>\<open>A[j][i]\<close> with \<^verbatim>\<open>int\<close> indices. The
  extent of a buffer is the caller's business (the code never checks an index), so a
  grid is a total map from index pairs to values. Distinct parameters are distinct
  buffers (no aliasing), as the driver guarantees.
\<close>

type_synonym grid = "int \<Rightarrow> int \<Rightarrow> real"

definition store :: "grid \<Rightarrow> int \<Rightarrow> int \<Rightarrow> real \<Rightarrow> grid" where
  "store G j i v = G(j := (G j)(i := v))"

section \<open>Mask builder\<close>

text \<open>
  \<^verbatim>\<open>void set_mask(double dx, double dy, int* nm, double** M)\<close>: the result is the pair of
  the value stored in \<^verbatim>\<open>*nm\<close> and the mask buffer after the five assignments. The buffer
  on entry is an argument: the function never writes the corner entries.
\<close>

definition set_mask :: "rounding \<Rightarrow> real \<Rightarrow> real \<Rightarrow> grid \<Rightarrow> int \<times> grid" where
  "set_mask fl dx dy M =
    (let nm = 1;
         M = store M 0 1 (fl (1 / fl (dy * dy)));
         M = store M 1 0 (fl (1 / fl (dx * dx)));
         M = store M 1 1 (fl (fl (- 2 * fl (fl (dx * dx) + fl (dy * dy)))
                              / fl (fl (fl (dx * dx) * dy) * dy)));
         M = store M 1 2 (fl (1 / fl (dx * dx)));
         M = store M 2 1 (fl (1 / fl (dy * dy)))
     in (nm, M))"

text \<open>The sum of all \<open>(2 nm + 1)\<^sup>2\<close> coefficients of a mask of radius \<open>nm\<close>.\<close>

definition mask_sum :: "grid \<Rightarrow> int \<Rightarrow> real" where
  "mask_sum M nm = (\<Sum>a = 0..2 * nm. \<Sum>b = 0..2 * nm. M a b)"

section \<open>Loops\<close>

text \<open>
  \<^verbatim>\<open>for (int j = b; j != e; j++) body\<close>: the loop of the three functors. It ends only
  when the counter meets \<open>e\<close>, so it is a partial function: \<open>None\<close> is "does not return".
\<close>

partial_function (option) for_ne :: "int \<Rightarrow> int \<Rightarrow> (int \<Rightarrow> 's \<Rightarrow> 's option) \<Rightarrow> 's \<Rightarrow> 's option" where
  "for_ne j e body s =
     (if j = e then Some s else Option.bind (body j s) (for_ne (j + 1) e body))"

text \<open>\<^verbatim>\<open>for (int m = b; m < e; m++) body\<close>: the loops over the mask.\<close>

function for_lt :: "int \<Rightarrow> int \<Rightarrow> (int \<Rightarrow> 's \<Rightarrow> 's) \<Rightarrow> 's \<Rightarrow> 's" where
  "for_lt m e body s = (if m < e then for_lt (m + 1) e body (body m s) else s)"
  by pat_completeness auto
termination
  by (relation "measure (\<lambda>(m, e, body, s). nat (e - m))") auto

section \<open>The library's ranges and parallel algorithms\<close>

text \<open>
  \<^verbatim>\<open>tbb::blocked_range<int>\<close> is the half-open interval \<open>[my_begin, my_end)\<close> with a grain
  size; \<^verbatim>\<open>size()\<close> is \<open>my_end - my_begin\<close>, \<^verbatim>\<open>empty()\<close> is \<open>\<not> (my_begin < my_end)\<close>,
  \<^verbatim>\<open>is_divisible()\<close> is \<open>my_grainsize < size()\<close>, and the splitting constructor cuts the
  interval at \<open>my_begin + size() / 2\<close>, leaving the lower part in the range that is split.
\<close>

record blocked_range =
  my_begin :: int
  my_end :: int
  my_grainsize :: nat

definition range_size :: "blocked_range \<Rightarrow> int" where
  "range_size r = my_end r - my_begin r"

definition range_empty :: "blocked_range \<Rightarrow> bool" where
  "range_empty r = (\<not> my_begin r < my_end r)"

definition range_is_divisible :: "blocked_range \<Rightarrow> bool" where
  "range_is_divisible r = (int (my_grainsize r) < range_size r)"

definition range_split :: "blocked_range \<Rightarrow> blocked_range \<times> blocked_range" where
  "range_split r =
     (let middle = my_begin r + range_size r div 2
      in (r\<lparr>my_end := middle\<rparr>, r\<lparr>my_begin := middle\<rparr>))"

text \<open>
  \<^verbatim>\<open>tbb::blocked_range2d<int>\<close> is a pair of ranges, \<^verbatim>\<open>rows()\<close> and \<^verbatim>\<open>cols()\<close>. Its
  constructor takes the rows first:
  \<^verbatim>\<open>blocked_range2d(row_begin, row_end, row_grainsize, col_begin, col_end, col_grainsize)\<close>.
  It is empty when one of the two is, divisible when one of the two is, and it splits
  the columns when \<open>rows.size * cols.grainsize < cols.size * rows.grainsize\<close> and the rows
  otherwise.
\<close>

record blocked_range2d =
  my_rows :: blocked_range
  my_cols :: blocked_range

definition blocked_range2d :: "int \<Rightarrow> int \<Rightarrow> nat \<Rightarrow> int \<Rightarrow> int \<Rightarrow> nat \<Rightarrow> blocked_range2d" where
  "blocked_range2d row_begin row_end row_grainsize col_begin col_end col_grainsize =
     \<lparr>my_rows = \<lparr>my_begin = row_begin, my_end = row_end, my_grainsize = row_grainsize\<rparr>,
      my_cols = \<lparr>my_begin = col_begin, my_end = col_end, my_grainsize = col_grainsize\<rparr>\<rparr>"

definition range2d_empty :: "blocked_range2d \<Rightarrow> bool" where
  "range2d_empty r = (range_empty (my_rows r) \<or> range_empty (my_cols r))"

definition range2d_is_divisible :: "blocked_range2d \<Rightarrow> bool" where
  "range2d_is_divisible r = (range_is_divisible (my_rows r) \<or> range_is_divisible (my_cols r))"

definition range2d_split :: "blocked_range2d \<Rightarrow> blocked_range2d \<times> blocked_range2d" where
  "range2d_split r =
     (if range_size (my_rows r) * int (my_grainsize (my_cols r))
           < range_size (my_cols r) * int (my_grainsize (my_rows r))
      then (let (c1, c2) = range_split (my_cols r) in (r\<lparr>my_cols := c1\<rparr>, r\<lparr>my_cols := c2\<rparr>))
      else (let (r1, r2) = range_split (my_rows r) in (r\<lparr>my_rows := r1\<rparr>, r\<lparr>my_rows := r2\<rparr>)))"

text \<open>
  How far the library splits a range, and which worker takes which part, is decided at
  run time (by the partitioner and by work stealing). A schedule records one such run:
  \<open>Run\<close> hands the whole current range to the body; \<open>Split stolen l r\<close> splits a
  divisible range, runs \<open>l\<close> on the lower part and \<open>r\<close> on the upper part, the upper
  part by another worker when \<open>stolen\<close>. A range that is not divisible is never split.
\<close>

datatype schedule = Run | Split bool schedule schedule

text \<open>
  \<^verbatim>\<open>tbb::parallel_for(range, body)\<close>: the body is applied to every tile of the schedule.
  The tiles are disjoint; the workers are modelled one after the other.
\<close>

fun run_for :: "schedule \<Rightarrow> blocked_range2d \<Rightarrow> (blocked_range2d \<Rightarrow> 's \<Rightarrow> 's option) \<Rightarrow> 's \<Rightarrow> 's option" where
  "run_for Run r body s = body r s"
| "run_for (Split stolen lo hi) r body s =
     (if range2d_is_divisible r
      then (let (r1, r2) = range2d_split r
            in Option.bind (run_for lo r1 body s) (run_for hi r2 body))
      else body r s)"

definition parallel_for :: "schedule \<Rightarrow> blocked_range2d \<Rightarrow> (blocked_range2d \<Rightarrow> 's \<Rightarrow> 's option) \<Rightarrow> 's \<Rightarrow> 's option" where
  "parallel_for sch r body s = (if range2d_empty r then Some s else run_for sch r body s)"

text \<open>
  \<^verbatim>\<open>tbb::parallel_reduce(range, body)\<close>: a part that is not stolen is run by the same body
  object, which goes on accumulating; a stolen part is run by a body made with the
  splitting constructor, which is joined into the first one afterwards
  (\<^verbatim>\<open>left.join(right)\<close>).
\<close>

fun run_reduce :: "schedule \<Rightarrow> blocked_range2d \<Rightarrow> (blocked_range2d \<Rightarrow> 'b \<Rightarrow> 'b option)
    \<Rightarrow> ('b \<Rightarrow> 'b) \<Rightarrow> ('b \<Rightarrow> 'b \<Rightarrow> 'b) \<Rightarrow> 'b \<Rightarrow> 'b option" where
  "run_reduce Run r call split_body join_body b = call r b"
| "run_reduce (Split stolen lo hi) r call split_body join_body b =
     (if range2d_is_divisible r
      then (let (r1, r2) = range2d_split r
            in if stolen
               then (case run_reduce lo r1 call split_body join_body b of
                       None \<Rightarrow> None
                     | Some b1 \<Rightarrow>
                        (case run_reduce hi r2 call split_body join_body (split_body b) of
                           None \<Rightarrow> None
                         | Some b2 \<Rightarrow> Some (join_body b1 b2)))
               else Option.bind (run_reduce lo r1 call split_body join_body b)
                      (run_reduce hi r2 call split_body join_body))
      else call r b)"

definition parallel_reduce :: "schedule \<Rightarrow> blocked_range2d \<Rightarrow> (blocked_range2d \<Rightarrow> 'b \<Rightarrow> 'b option)
    \<Rightarrow> ('b \<Rightarrow> 'b) \<Rightarrow> ('b \<Rightarrow> 'b \<Rightarrow> 'b) \<Rightarrow> 'b \<Rightarrow> 'b option" where
  "parallel_reduce sch r call split_body join_body b =
     (if range2d_empty r then Some b else run_reduce sch r call split_body join_body b)"

text \<open>The grain size both dimensions get in every call: \<^verbatim>\<open>const int tbb_bs = 16\<close>.\<close>

definition tbb_bs :: nat where
  "tbb_bs = 16"

section \<open>Convolution engine\<close>

text \<open>
  The two inner loops of \<^verbatim>\<open>ComputeConvolution2D::operator()\<close>: the value stored in
  \<^verbatim>\<open>C[j][i]\<close>, accumulated from \<open>0.0\<close> over the mask in row-major order.
\<close>

definition conv_value :: "rounding \<Rightarrow> grid \<Rightarrow> grid \<Rightarrow> int \<Rightarrow> int \<Rightarrow> int \<Rightarrow> real" where
  "conv_value fl A M nm j i =
     for_lt (- nm) (nm + 1)
       (\<lambda>mj. for_lt (- nm) (nm + 1)
          (\<lambda>mi val. fl (val + fl (M (mj + nm) (mi + nm) * A (j + mj) (i + mi)))))
       0"

text \<open>
  \<^verbatim>\<open>ComputeConvolution2D::operator()(r)\<close>: \<open>j\<close> runs over \<^verbatim>\<open>r.cols()\<close> and \<open>i\<close> over
  \<^verbatim>\<open>r.rows()\<close>. The state is the output buffer \<open>C\<close>.
\<close>

definition ComputeConvolution2D :: "rounding \<Rightarrow> grid \<Rightarrow> grid \<Rightarrow> int \<Rightarrow> blocked_range2d \<Rightarrow> grid \<Rightarrow> grid option" where
  "ComputeConvolution2D fl A M nm r C =
     for_ne (my_begin (my_cols r)) (my_end (my_cols r))
       (\<lambda>j. for_ne (my_begin (my_rows r)) (my_end (my_rows r))
          (\<lambda>i C. Some (store C j i (conv_value fl A M nm j i))))
       C"

definition compute_convolution :: "rounding \<Rightarrow> schedule \<Rightarrow> grid \<Rightarrow> grid \<Rightarrow> grid \<Rightarrow> int \<Rightarrow> int \<Rightarrow> int \<Rightarrow> grid option" where
  "compute_convolution fl sch A C M nx ny nm =
     parallel_for sch (blocked_range2d 1 (ny - 1) tbb_bs 1 (nx - 1) tbb_bs)
       (ComputeConvolution2D fl A M nm) C"

section \<open>Time integrator\<close>

text \<open>
  \<^verbatim>\<open>StepInTime2D::operator()(r)\<close>, with \<^verbatim>\<open>dt * D * C[j][i]\<close> read as \<open>(dt * D) * C[j][i]\<close>.
\<close>

definition StepInTime2D :: "rounding \<Rightarrow> grid \<Rightarrow> grid \<Rightarrow> real \<Rightarrow> real \<Rightarrow> blocked_range2d \<Rightarrow> grid \<Rightarrow> grid option" where
  "StepInTime2D fl A C D dt r B =
     for_ne (my_begin (my_cols r)) (my_end (my_cols r))
       (\<lambda>j. for_ne (my_begin (my_rows r)) (my_end (my_rows r))
          (\<lambda>i B. Some (store B j i (fl (A j i + fl (fl (dt * D) * C j i))))))
       B"

text \<open>\<^verbatim>\<open>step_in_time\<close>: the result is the buffer \<open>B\<close> and the value of \<^verbatim>\<open>*elapsed\<close>.\<close>

definition step_in_time :: "rounding \<Rightarrow> schedule \<Rightarrow> grid \<Rightarrow> grid \<Rightarrow> grid \<Rightarrow> int \<Rightarrow> int \<Rightarrow> real \<Rightarrow> real \<Rightarrow> real \<Rightarrow> (grid \<times> real) option" where
  "step_in_time fl sch A B C nx ny D dt elapsed =
     (case parallel_for sch (blocked_range2d 1 (ny - 1) tbb_bs 1 (nx - 1) tbb_bs)
             (StepInTime2D fl A C D dt) B of
        None \<Rightarrow> None
      | Some B' \<Rightarrow> Some (B', fl (elapsed + dt)))"

section \<open>Analytical solution\<close>

text \<open>
  The error function of the C library is modelled by the rounded value of the
  mathematical one, given by its power series
  \<open>erf x = 2 / \<surd>\<pi> \<cdot> \<Sum>\<^sub>n (-1)\<^sup>n x\<^bsup>2n+1\<^esup> / (n! (2n+1))\<close>.
\<close>

definition erf :: "real \<Rightarrow> real" where
  "erf x = 2 / sqrt pi * (\<Sum>n. (- 1) ^ n * x ^ (2 * n + 1) / (fact n * of_nat (2 * n + 1)))"

text \<open>\<^verbatim>\<open>analytical_value\<close>: the result is the value stored in \<^verbatim>\<open>*c\<close>.\<close>

definition analytical_value :: "rounding \<Rightarrow> real \<Rightarrow> real \<Rightarrow> real \<Rightarrow> real \<Rightarrow> real" where
  "analytical_value fl x t D chi =
     fl (chi * fl (1 - fl (erf (fl (x / fl (sqrt (fl (fl (4 * D) * t))))))))"

section \<open>Residual evaluator\<close>

text \<open>
  The product of two \<^verbatim>\<open>int\<close> values, with the wrap-around of 32-bit two's complement
  arithmetic written out.
\<close>

definition int_mul :: "int \<Rightarrow> int \<Rightarrow> int" where
  "int_mul a b = (a * b + 2 ^ 31) mod 2 ^ 32 - 2 ^ 31"

record ResidualSumOfSquares2D =
  my_A :: grid
  my_dx :: real
  my_dy :: real
  my_elapsed :: real
  my_D :: real
  my_c :: real
  my_rss :: real

text \<open>The two constructors: the ordinary one and the splitting one.\<close>

definition ResidualSumOfSquares2D :: "grid \<Rightarrow> real \<Rightarrow> real \<Rightarrow> real \<Rightarrow> real \<Rightarrow> real \<Rightarrow> ResidualSumOfSquares2D" where
  "ResidualSumOfSquares2D A dx dy elapsed D c =
     \<lparr>my_A = A, my_dx = dx, my_dy = dy, my_elapsed = elapsed, my_D = D, my_c = c, my_rss = 0\<rparr>"

definition ResidualSumOfSquares2D_split :: "ResidualSumOfSquares2D \<Rightarrow> ResidualSumOfSquares2D" where
  "ResidualSumOfSquares2D_split a =
     \<lparr>my_A = my_A a, my_dx = my_dx a, my_dy = my_dy a, my_elapsed = my_elapsed a,
      my_D = my_D a, my_c = my_c a, my_rss = 0\<rparr>"

text \<open>
  The body of the two loops of \<^verbatim>\<open>ResidualSumOfSquares2D::operator()\<close> at cell \<open>(j, i)\<close>:
  the new value of \<^verbatim>\<open>sum\<close> from its old value \<open>acc\<close>. Here \<open>nx\<close> and \<open>ny\<close> are the
  constants the operator declares; \<open>ny / 2\<close> is the division of C on a value that is at
  least 2, and the squared distances are evaluated from left to right, as
  \<open>((dx * dx) * (i - 1)) * (i - 1)\<close>.
\<close>

definition rss_cell :: "rounding \<Rightarrow> grid \<Rightarrow> real \<Rightarrow> real \<Rightarrow> real \<Rightarrow> real \<Rightarrow> real \<Rightarrow> int \<Rightarrow> int \<Rightarrow> int \<Rightarrow> int \<Rightarrow> real \<Rightarrow> real" where
  "rss_cell fl A dx dy elapsed D c nx ny j i acc =
     (let cn = A j i;
          x = (if j < ny div 2
               then fl (dx * of_int (i - 1))
               else fl (sqrt (fl (fl (fl (fl (dx * dx) * of_int (i - 1)) * of_int (i - 1))
                                + fl (fl (fl (dy * dy) * of_int (j - ny div 2)) * of_int (j - ny div 2))))));
          cal = analytical_value fl x elapsed D c;
          x = (if j \<ge> ny div 2
               then fl (dx * of_int (nx - 2 - i))
               else fl (sqrt (fl (fl (fl (fl (dx * dx) * of_int (nx - 2 - i)) * of_int (nx - 2 - i))
                                + fl (fl (fl (dy * dy) * of_int (ny div 2 - j)) * of_int (ny div 2 - j))))));
          car = analytical_value fl x elapsed D c;
          ca = fl (cal + car)
      in fl (acc + fl (fl (fl (ca - cn) * fl (ca - cn)) / of_int (int_mul (nx - 2) (ny - 2)))))"

text \<open>
  \<^verbatim>\<open>ResidualSumOfSquares2D::operator()(r)\<close>: \<open>nx\<close> and \<open>ny\<close> are computed from the range
  the operator is called on.
\<close>

definition ResidualSumOfSquares2D_call :: "rounding \<Rightarrow> blocked_range2d \<Rightarrow> ResidualSumOfSquares2D \<Rightarrow> ResidualSumOfSquares2D option" where
  "ResidualSumOfSquares2D_call fl r b =
     (let acc = my_rss b;
          nx = range_size (my_rows r) + 2;
          ny = range_size (my_cols r) + 2
      in case for_ne (my_begin (my_cols r)) (my_end (my_cols r))
                (\<lambda>j. for_ne (my_begin (my_rows r)) (my_end (my_rows r))
                   (\<lambda>i acc. Some (rss_cell fl (my_A b) (my_dx b) (my_dy b) (my_elapsed b)
                                    (my_D b) (my_c b) nx ny j i acc)))
                acc of
           None \<Rightarrow> None
         | Some acc \<Rightarrow> Some (b\<lparr>my_rss := acc\<rparr>))"

definition ResidualSumOfSquares2D_join :: "rounding \<Rightarrow> ResidualSumOfSquares2D \<Rightarrow> ResidualSumOfSquares2D \<Rightarrow> ResidualSumOfSquares2D" where
  "ResidualSumOfSquares2D_join fl b a = b\<lparr>my_rss := fl (my_rss b + my_rss a)\<rparr>"

text \<open>
  \<^verbatim>\<open>check_solution\<close>: the result is the value stored in \<^verbatim>\<open>*rss\<close>. \<^verbatim>\<open>double bc[2][2]\<close> is
  read at \<^verbatim>\<open>bc[1][0]\<close> only.
\<close>

definition check_solution :: "rounding \<Rightarrow> schedule \<Rightarrow> grid \<Rightarrow> int \<Rightarrow> int \<Rightarrow> real \<Rightarrow> real \<Rightarrow> real \<Rightarrow> real \<Rightarrow> grid \<Rightarrow> real option" where
  "check_solution fl sch A nx ny dx dy elapsed D bc =
     (let R = ResidualSumOfSquares2D A dx dy elapsed D (bc 1 0)
      in case parallel_reduce sch (blocked_range2d 1 (ny - 1) tbb_bs 1 (nx - 1) tbb_bs)
                (ResidualSumOfSquares2D_call fl) ResidualSumOfSquares2D_split
                (ResidualSumOfSquares2D_join fl) R of
           None \<Rightarrow> None
         | Some R \<Rightarrow> Some (my_rss R))"

section \<open>Vocabulary of the properties\<close>

text \<open>
  The interior cells of an \<open>ny\<close> by \<open>nx\<close> grid, as the specification names them: row
  index \<open>j\<close> from 1 to \<open>ny - 2\<close>, column index \<open>i\<close> from 1 to \<open>nx - 2\<close>.
\<close>

definition interior :: "int \<Rightarrow> int \<Rightarrow> int \<Rightarrow> int \<Rightarrow> bool" where
  "interior nx ny j i = (1 \<le> j \<and> j \<le> ny - 2 \<and> 1 \<le> i \<and> i \<le> nx - 2)"

text \<open>
  The cells a functor visits on a range: \<open>j\<close> in \<^verbatim>\<open>cols()\<close> and \<open>i\<close> in \<^verbatim>\<open>rows()\<close>. A range
  is ordered when neither interval ends before it begins.
\<close>

definition in_tile :: "blocked_range2d \<Rightarrow> int \<Rightarrow> int \<Rightarrow> bool" where
  "in_tile r j i = (my_begin (my_cols r) \<le> j \<and> j < my_end (my_cols r)
                  \<and> my_begin (my_rows r) \<le> i \<and> i < my_end (my_rows r))"

definition ordered :: "blocked_range2d \<Rightarrow> bool" where
  "ordered r = (my_begin (my_cols r) \<le> my_end (my_cols r)
              \<and> my_begin (my_rows r) \<le> my_end (my_rows r))"

text \<open>The convolution sum of the specification, in the arithmetic of the reals.\<close>

definition conv_spec :: "grid \<Rightarrow> grid \<Rightarrow> int \<Rightarrow> int \<Rightarrow> int \<Rightarrow> real" where
  "conv_spec A M nm j i =
     (\<Sum>mj = - nm..nm. \<Sum>mi = - nm..nm. M (mj + nm) (mi + nm) * A (j + mj) (i + mi))"

text \<open>
  The mean squared error of the specification, in the arithmetic of the reals: the
  distances to the two sources, the superposed analytical value, and the sum over the
  interior cells of the whole grid, divided by their number. \<open>c\<close> is the concentration
  of both sources.
\<close>

definition left_distance :: "real \<Rightarrow> real \<Rightarrow> int \<Rightarrow> int \<Rightarrow> int \<Rightarrow> real" where
  "left_distance dx dy ny j i =
     (if j < ny div 2 then dx * of_int (i - 1)
      else sqrt (dx\<^sup>2 * (of_int (i - 1))\<^sup>2 + dy\<^sup>2 * (of_int (j - ny div 2))\<^sup>2))"

definition right_distance :: "real \<Rightarrow> real \<Rightarrow> int \<Rightarrow> int \<Rightarrow> int \<Rightarrow> int \<Rightarrow> real" where
  "right_distance dx dy nx ny j i =
     (if ny div 2 \<le> j then dx * of_int (nx - 2 - i)
      else sqrt (dx\<^sup>2 * (of_int (nx - 2 - i))\<^sup>2 + dy\<^sup>2 * (of_int (ny div 2 - j))\<^sup>2))"

definition analytical_spec :: "real \<Rightarrow> real \<Rightarrow> real \<Rightarrow> real \<Rightarrow> real" where
  "analytical_spec x t D chi = chi * (1 - erf (x / sqrt (4 * D * t)))"

definition rss_spec :: "grid \<Rightarrow> int \<Rightarrow> int \<Rightarrow> real \<Rightarrow> real \<Rightarrow> real \<Rightarrow> real \<Rightarrow> real \<Rightarrow> real" where
  "rss_spec A nx ny dx dy t D c =
     (\<Sum>j = 1..ny - 2. \<Sum>i = 1..nx - 2.
        (analytical_spec (left_distance dx dy ny j i) t D c
           + analytical_spec (right_distance dx dy nx ny j i) t D c - A j i)\<^sup>2
        / of_int ((nx - 2) * (ny - 2)))"

text \<open>
  The tiles a schedule hands to the body, and what one call of the residual operator on
  a tile adds in the arithmetic of the reals (with the \<open>nx\<close> and \<open>ny\<close> of the tile).
\<close>

fun tiles :: "schedule \<Rightarrow> blocked_range2d \<Rightarrow> blocked_range2d list" where
  "tiles Run r = [r]"
| "tiles (Split stolen lo hi) r =
     (if range2d_is_divisible r
      then (let (r1, r2) = range2d_split r in tiles lo r1 @ tiles hi r2)
      else [r])"

definition tile_rss :: "ResidualSumOfSquares2D \<Rightarrow> blocked_range2d \<Rightarrow> real" where
  "tile_rss b r =
     (\<Sum>j = my_begin (my_cols r)..<my_end (my_cols r).
        \<Sum>i = my_begin (my_rows r)..<my_end (my_rows r).
          rss_cell exact (my_A b) (my_dx b) (my_dy b) (my_elapsed b) (my_D b) (my_c b)
            (range_size (my_rows r) + 2) (range_size (my_cols r) + 2) j i 0)"

text \<open>
  A buffer that holds one value in every cell, and the readers of one cell of a result.
\<close>

definition const_grid :: "real \<Rightarrow> grid" where
  "const_grid v = (\<lambda>j i. v)"

definition read_cell :: "grid option \<Rightarrow> int \<Rightarrow> int \<Rightarrow> real option" where
  "read_cell G j i = map_option (\<lambda>G. G j i) G"

definition read_step :: "(grid \<times> real) option \<Rightarrow> int \<Rightarrow> int \<Rightarrow> (real \<times> real) option" where
  "read_step R j i = map_option (\<lambda>(B, elapsed). (B j i, elapsed)) R"

section \<open>Loops and tiles\<close>

declare for_lt.simps [simp del]

lemma for_ne_done: "for_ne e e body s = Some s"
  by (subst for_ne.simps) simp

lemma for_ne_step:
  "j \<noteq> e \<Longrightarrow> for_ne j e body s = Option.bind (body j s) (for_ne (j + 1) e body)"
  by (subst for_ne.simps) simp



text \<open>A row of stores, and a tile of stores: the loops return, and write exactly the tile.\<close>

lemma for_ne_row_store:
  "b \<le> e \<Longrightarrow> for_ne b e (\<lambda>i C. Some (store C j i (g i))) C
     = Some (\<lambda>j' i'. if j' = j \<and> b \<le> i' \<and> i' < e then g i' else C j' i')"
proof (induction "nat (e - b)" arbitrary: b C)
  case 0
  then have "b = e" by simp
  then show ?case by (auto simp: for_ne_done fun_eq_iff)
next
  case (Suc n)
  then have lt: "b < e" and n: "n = nat (e - (b + 1))" by linarith+
  have "for_ne (b + 1) e (\<lambda>i C. Some (store C j i (g i))) (store C j b (g b))
      = Some (\<lambda>j' i'. if j' = j \<and> b + 1 \<le> i' \<and> i' < e then g i' else (store C j b (g b)) j' i')"
    using Suc.hyps(1)[OF n] lt by simp
  moreover have "(\<lambda>j' i'. if j' = j \<and> b + 1 \<le> i' \<and> i' < e then g i' else (store C j b (g b)) j' i')
      = (\<lambda>j' i'. if j' = j \<and> b \<le> i' \<and> i' < e then g i' else C j' i')"
    using lt by (intro ext) (auto simp: store_def)
  ultimately show ?case using lt by (simp add: for_ne_step)
qed

lemma for_ne_cells:
  "b \<le> e \<Longrightarrow> rb \<le> re \<Longrightarrow>
   for_ne b e (\<lambda>j. for_ne rb re (\<lambda>i C. Some (store C j i (g j i)))) C
     = Some (\<lambda>j' i'. if b \<le> j' \<and> j' < e \<and> rb \<le> i' \<and> i' < re then g j' i' else C j' i')"
proof (induction "nat (e - b)" arbitrary: b C)
  case 0
  then have "b = e" by simp
  then show ?case by (auto simp: for_ne_done fun_eq_iff)
next
  case (Suc n)
  then have lt: "b < e" and n: "n = nat (e - (b + 1))" by linarith+
  let ?C1 = "(\<lambda>j' i'. if j' = b \<and> rb \<le> i' \<and> i' < re then g b i' else C j' i')"
  have row: "for_ne rb re (\<lambda>i C. Some (store C b i (g b i))) C = Some ?C1"
    using for_ne_row_store[OF Suc.prems(2), of b "g b" C] by simp
  have "for_ne (b + 1) e (\<lambda>j. for_ne rb re (\<lambda>i C. Some (store C j i (g j i)))) ?C1
      = Some (\<lambda>j' i'. if b + 1 \<le> j' \<and> j' < e \<and> rb \<le> i' \<and> i' < re then g j' i' else ?C1 j' i')"
    using Suc.hyps(1)[OF n _ Suc.prems(2)] lt by simp
  moreover have "(\<lambda>j' i'. if b + 1 \<le> j' \<and> j' < e \<and> rb \<le> i' \<and> i' < re then g j' i' else ?C1 j' i')
      = (\<lambda>j' i'. if b \<le> j' \<and> j' < e \<and> rb \<le> i' \<and> i' < re then g j' i' else C j' i')"
    using lt by (intro ext) auto
  ultimately show ?case using lt row by (simp add: for_ne_step)
qed

text \<open>Splitting an ordered range gives two ordered ranges that share out its cells.\<close>

lemma range_split_ordered:
  "my_begin r \<le> my_end r \<Longrightarrow> range_split r = (r1, r2) \<Longrightarrow>
     my_begin r1 = my_begin r \<and> my_end r1 = my_begin r2 \<and> my_end r2 = my_end r
     \<and> my_begin r1 \<le> my_end r1 \<and> my_begin r2 \<le> my_end r2"
  by (auto simp: range_split_def Let_def range_size_def)

lemma range2d_split_tiles:
  assumes "ordered r" "range2d_split r = (r1, r2)"
  shows "ordered r1 \<and> ordered r2 \<and> (\<forall>j i. in_tile r j i \<longleftrightarrow> in_tile r1 j i \<or> in_tile r2 j i)"
proof (cases "range_size (my_rows r) * int (my_grainsize (my_cols r))
           < range_size (my_cols r) * int (my_grainsize (my_rows r))")
  case True
  obtain c1 c2 where c: "range_split (my_cols r) = (c1, c2)"
    by (cases "range_split (my_cols r)")
  with True assms(2) have r12: "r1 = r\<lparr>my_cols := c1\<rparr>" "r2 = r\<lparr>my_cols := c2\<rparr>"
    by (auto simp: range2d_split_def)
  from assms(1) have "my_begin (my_cols r) \<le> my_end (my_cols r)"
    by (simp add: ordered_def)
  from range_split_ordered[OF this c] assms(1) show ?thesis
    unfolding r12 by (auto simp: ordered_def in_tile_def)
next
  case False
  obtain c1 c2 where c: "range_split (my_rows r) = (c1, c2)"
    by (cases "range_split (my_rows r)")
  with False assms(2) have r12: "r1 = r\<lparr>my_rows := c1\<rparr>" "r2 = r\<lparr>my_rows := c2\<rparr>"
    by (auto simp: range2d_split_def)
  from assms(1) have "my_begin (my_rows r) \<le> my_end (my_rows r)"
    by (simp add: ordered_def)
  from range_split_ordered[OF this c] assms(1) show ?thesis
    unfolding r12 by (auto simp: ordered_def in_tile_def)
qed

text \<open>
  A body that writes \<open>g j i\<close> into every cell of the tile it is given writes \<open>g j i\<close>
  into every cell of the range, whatever the schedule.
\<close>

lemma run_for_cells:
  assumes body: "\<And>r C. ordered r \<Longrightarrow> body r C = Some (\<lambda>j i. if in_tile r j i then g j i else C j i)"
  shows "ordered r \<Longrightarrow> run_for sch r body C = Some (\<lambda>j i. if in_tile r j i then g j i else C j i)"
proof (induction sch arbitrary: r C)
  case Run
  then show ?case by (simp add: body)
next
  case (Split stolen lo hi)
  show ?case
  proof (cases "range2d_is_divisible r")
    case False
    with Split.prems show ?thesis by (simp add: body)
  next
    case True
    obtain r1 r2 where s: "range2d_split r = (r1, r2)"
      by (cases "range2d_split r")
    from range2d_split_tiles[OF Split.prems s]
    have o1: "ordered r1" and o2: "ordered r2"
      and t: "\<And>j i. in_tile r j i \<longleftrightarrow> in_tile r1 j i \<or> in_tile r2 j i" by auto
    have "(\<lambda>j i. if in_tile r2 j i then g j i else (if in_tile r1 j i then g j i else C j i))
        = (\<lambda>j i. if in_tile r j i then g j i else C j i)"
      by (intro ext) (simp add: t)
    then show ?thesis using True s Split.IH(1)[OF o1] Split.IH(2)[OF o2] by simp
  qed
qed

lemma parallel_for_cells:
  assumes body: "\<And>r C. ordered r \<Longrightarrow> body r C = Some (\<lambda>j i. if in_tile r j i then g j i else C j i)"
  shows "parallel_for sch (blocked_range2d 1 (ny - 1) tbb_bs 1 (nx - 1) tbb_bs) body C
       = Some (\<lambda>j i. if 1 \<le> j \<and> j \<le> nx - 2 \<and> 1 \<le> i \<and> i \<le> ny - 2 then g j i else C j i)"
proof (cases "range2d_empty (blocked_range2d 1 (ny - 1) tbb_bs 1 (nx - 1) tbb_bs)")
  case True
  then have "(\<lambda>j i. if 1 \<le> j \<and> j \<le> nx - 2 \<and> 1 \<le> i \<and> i \<le> ny - 2 then g j i else C j i) = C"
    by (intro ext) (auto simp: range2d_empty_def range_empty_def blocked_range2d_def)
  with True show ?thesis by (simp add: parallel_for_def)
next
  case False
  then have o: "ordered (blocked_range2d 1 (ny - 1) tbb_bs 1 (nx - 1) tbb_bs)"
    by (auto simp: range2d_empty_def range_empty_def blocked_range2d_def ordered_def)
  have "in_tile (blocked_range2d 1 (ny - 1) tbb_bs 1 (nx - 1) tbb_bs) j i
      \<longleftrightarrow> 1 \<le> j \<and> j \<le> nx - 2 \<and> 1 \<le> i \<and> i \<le> ny - 2" for j i
    by (auto simp: in_tile_def blocked_range2d_def)
  with False run_for_cells[of body g, OF body o] show ?thesis
    by (simp add: parallel_for_def)
qed

section \<open>What the convolution engine and the time integrator write\<close>

text \<open>
  For every rounding, every schedule and all dimensions the two operations return, and
  they write the cells \<open>(j, i)\<close> with \<open>1 \<le> j \<le> nx - 2\<close> and \<open>1 \<le> i \<le> ny - 2\<close>: the
  range is built with \<open>ny\<close> for the rows and \<open>nx\<close> for the columns, and the functors run
  \<open>j\<close> over the columns and \<open>i\<close> over the rows.
\<close>

lemma compute_convolution_cells:
  "compute_convolution fl sch A C M nx ny nm
     = Some (\<lambda>j i. if 1 \<le> j \<and> j \<le> nx - 2 \<and> 1 \<le> i \<and> i \<le> ny - 2
                    then conv_value fl A M nm j i else C j i)"
  unfolding compute_convolution_def
  by (rule parallel_for_cells)
     (simp add: ComputeConvolution2D_def ordered_def in_tile_def for_ne_cells)

lemma step_in_time_cells:
  "step_in_time fl sch A B C nx ny D dt elapsed
     = Some (\<lambda>j i. if 1 \<le> j \<and> j \<le> nx - 2 \<and> 1 \<le> i \<and> i \<le> ny - 2
                    then fl (A j i + fl (fl (dt * D) * C j i)) else B j i,
             fl (elapsed + dt))"
proof -
  have "parallel_for sch (blocked_range2d 1 (ny - 1) tbb_bs 1 (nx - 1) tbb_bs)
          (StepInTime2D fl A C D dt) B
     = Some (\<lambda>j i. if 1 \<le> j \<and> j \<le> nx - 2 \<and> 1 \<le> i \<and> i \<le> ny - 2
                    then fl (A j i + fl (fl (dt * D) * C j i)) else B j i)"
    by (rule parallel_for_cells)
       (simp add: StepInTime2D_def ordered_def in_tile_def for_ne_cells)
  then show ?thesis by (simp add: step_in_time_def)
qed

text \<open>On a square grid these are the interior cells of the specification.\<close>

lemma compute_convolution_square:
  "\<exists>C'. compute_convolution fl sch A C M n n nm = Some C'
     \<and> (\<forall>j i. C' j i = (if interior n n j i then conv_value fl A M nm j i else C j i))"
  by (simp add: compute_convolution_cells interior_def)

lemma step_in_time_square:
  "\<exists>B'. step_in_time fl sch A B C n n D dt elapsed = Some (B', fl (elapsed + dt))
     \<and> (\<forall>j i. B' j i = (if interior n n j i then fl (A j i + fl (fl (dt * D) * C j i)) else B j i))"
  by (simp add: step_in_time_cells interior_def)

text \<open>In the arithmetic of the reals the accumulated value is the convolution sum.\<close>

lemma for_lt_sum: "for_lt a b (\<lambda>m s. s + f m) (s :: real) = s + sum f {a..<b}"
proof (induction a b "\<lambda>m s. s + f m" s rule: for_lt.induct)
  case (1 m e s)
  show ?case
  proof (cases "m < e")
    case True
    then have "{m..<e} = insert m {m + 1..<e}" by auto
    then have "sum f {m..<e} = f m + sum f {m + 1..<e}" by simp
    with True 1 show ?thesis by (subst for_lt.simps) (simp add: add.assoc)
  next
    case False
    then show ?thesis by (subst for_lt.simps) simp
  qed
qed

lemma conv_value_exact: "conv_value exact A M nm j i = conv_spec A M nm j i"
proof -
  have "(\<lambda>mj. for_lt (- nm) (nm + 1)
            (\<lambda>mi val. val + M (mj + nm) (mi + nm) * A (j + mj) (i + mi)))
      = (\<lambda>mj val. val + (\<Sum>mi = - nm..<nm + 1. M (mj + nm) (mi + nm) * A (j + mj) (i + mi)))"
    by (intro ext) (rule for_lt_sum)
  then show ?thesis
    by (simp add: conv_value_def conv_spec_def exact_def for_lt_sum
          atLeastLessThanPlusOne_atLeastAtMost_int)
qed

text \<open>
  On a square grid, in the arithmetic of the reals, an interior cell receives the
  convolution sum and the explicit Euler update; with \<open>D = 0\<close> it receives \<open>A[j][i]\<close>
  itself under every rounding that keeps 0 and the value of the cell.
\<close>

lemma compute_convolution_square_exact:
  "interior n n j i \<Longrightarrow>
   read_cell (compute_convolution exact sch A C M n n nm) j i = Some (conv_spec A M nm j i)"
  by (simp add: read_cell_def compute_convolution_cells interior_def conv_value_exact)

lemma step_in_time_square_exact:
  "interior n n j i \<Longrightarrow>
   read_step (step_in_time exact sch A B C n n D dt elapsed) j i
     = Some (A j i + dt * D * C j i, elapsed + dt)"
  by (simp add: read_step_def step_in_time_cells interior_def exact_def)

lemma step_in_time_square_zero_diffusivity:
  "interior n n j i \<Longrightarrow> fl 0 = 0 \<Longrightarrow> fl (A j i) = A j i \<Longrightarrow>
   read_step (step_in_time fl sch A B C n n 0 dt elapsed) j i = Some (A j i, fl (elapsed + dt))"
  by (simp add: read_step_def step_in_time_cells interior_def)

section \<open>Evaluating the two roundings\<close>

lemma powi_powr: "(2::real) powi e = 2 powr (of_int e)"
  by (simp add: powr_int power_int_def inverse_eq_divide power_divide)

text \<open>The value of \<open>binary64\<close> at a number whose binary exponent is known.\<close>

lemma binary64_eval:
  assumes "2 powi e \<le> \<bar>x\<bar>" "\<bar>x\<bar> < 2 powi (e + 1)"
  shows "binary64 x = of_int (rne (x * 2 powi (52 - e))) * 2 powi (e - 52)"
proof -
  have pos: "0 < \<bar>x\<bar>"
    using assms(1) by (smt (verit) zero_less_power_int)
  have "\<lfloor>log 2 \<bar>x\<bar>\<rfloor> = e"
    using floor_log_eq_powr_iff[of "\<bar>x\<bar>" 2 e] assms pos by (simp add: powi_powr)
  then show ?thesis using pos by (simp add: binary64_def Let_def)
qed

lemma binary64_0: "binary64 0 = 0"
  by (simp add: binary64_def)

lemmas binary64_numeral = binary64_0 binary64_eval[where e="-54"] binary64_eval[where e="-4"]
  binary64_eval[where e="0"] binary64_eval[where e="1"] binary64_eval[where e="2"]
  binary64_eval[where e="3"] binary64_eval[where e="4"]

lemmas rne_numeral = power_int_def rne_def Let_def power_divide inverse_eq_divide


section \<open>The mask\<close>

lemma set_mask_exact_entries:
  "set_mask exact dx dy M = (nm', M') \<Longrightarrow>
     nm' = 1 \<and> M' 0 1 = 1 / (dy * dy) \<and> M' 2 1 = 1 / (dy * dy)
     \<and> M' 1 0 = 1 / (dx * dx) \<and> M' 1 2 = 1 / (dx * dx)
     \<and> M' 1 1 = - 2 * (dx * dx + dy * dy) / (dx * dx * dy * dy)
     \<and> M' 0 0 = M 0 0 \<and> M' 0 2 = M 0 2 \<and> M' 2 0 = M 2 0 \<and> M' 2 2 = M 2 2"
  by (auto simp: set_mask_def exact_def store_def Let_def)

lemma mask_sum_1:
  "mask_sum M 1 = M 0 0 + M 0 1 + M 0 2 + M 1 0 + M 1 1 + M 1 2 + M 2 0 + M 2 1 + M 2 2"
proof -
  have "{0..2::int} = {0, 1, 2}" by auto
  then show ?thesis by (simp add: mask_sum_def)
qed

text \<open>The nine steps of the accumulation for a mask of radius 1.\<close>

lemma conv_value_1:
  "conv_value fl A M 1 j i =
     fl (fl (fl (fl (fl (fl (fl (fl (fl (0 + fl (M 0 0 * A (j - 1) (i - 1)))
       + fl (M 0 1 * A (j - 1) i)) + fl (M 0 2 * A (j - 1) (i + 1)))
       + fl (M 1 0 * A j (i - 1))) + fl (M 1 1 * A j i)) + fl (M 1 2 * A j (i + 1)))
       + fl (M 2 0 * A (j + 1) (i - 1))) + fl (M 2 1 * A (j + 1) i))
       + fl (M 2 2 * A (j + 1) (i + 1)))"
  by (simp add: conv_value_def for_lt.simps)

text \<open>The mask for \<open>dx = 1\<close>, \<open>dy = 3\<close> in double precision, built in a zeroed buffer.\<close>

lemma mask_1_3:
  "snd (set_mask binary64 1 3 (const_grid 0)) 0 0 = 0"
  "snd (set_mask binary64 1 3 (const_grid 0)) 0 1 = 2001599834386887 / 2 ^ 54"
  "snd (set_mask binary64 1 3 (const_grid 0)) 0 2 = 0"
  "snd (set_mask binary64 1 3 (const_grid 0)) 1 0 = 1"
  "snd (set_mask binary64 1 3 (const_grid 0)) 1 1 = - 2501999792983609 / 2 ^ 50"
  "snd (set_mask binary64 1 3 (const_grid 0)) 1 2 = 1"
  "snd (set_mask binary64 1 3 (const_grid 0)) 2 0 = 0"
  "snd (set_mask binary64 1 3 (const_grid 0)) 2 1 = 2001599834386887 / 2 ^ 54"
  "snd (set_mask binary64 1 3 (const_grid 0)) 2 2 = 0"
  by (simp_all add: set_mask_def store_def const_grid_def binary64_numeral rne_numeral)

section \<open>The reduction in the arithmetic of the reals\<close>

lemma for_ne_sum:
  "b \<le> e \<Longrightarrow> for_ne b e (\<lambda>i acc. Some (acc + f i)) (acc :: real) = Some (acc + sum f {b..<e})"
proof (induction "nat (e - b)" arbitrary: b acc)
  case 0
  then have "b = e" by simp
  then show ?case by (simp add: for_ne_done)
next
  case (Suc n)
  then have lt: "b < e" and n: "n = nat (e - (b + 1))" by linarith+
  have "{b..<e} = insert b {b + 1..<e}" using lt by auto
  then have "sum f {b..<e} = f b + sum f {b + 1..<e}" by simp
  then show ?case
    using Suc.hyps(1)[OF n, of "acc + f b"] lt by (simp add: for_ne_step add.assoc)
qed

lemma for_ne_sum2:
  assumes "b \<le> e" "rb \<le> re"
  shows "for_ne b e (\<lambda>j. for_ne rb re (\<lambda>i acc. Some (acc + f j i))) (acc :: real)
       = Some (acc + (\<Sum>j = b..<e. \<Sum>i = rb..<re. f j i))"
proof -
  have "(\<lambda>j. for_ne rb re (\<lambda>i acc. Some (acc + f j i)))
      = (\<lambda>j acc. Some (acc + (\<Sum>i = rb..<re. f j i)))"
    by (intro ext) (simp add: for_ne_sum[OF assms(2)])
  then show ?thesis by (simp add: for_ne_sum[OF assms(1)])
qed

lemma rss_cell_exact_acc:
  "rss_cell exact A dx dy t D c nx ny j i acc = acc + rss_cell exact A dx dy t D c nx ny j i 0"
  by (simp add: rss_cell_def exact_def Let_def)

text \<open>
  One call of the operator on a tile adds the cells of the tile, each computed with the
  \<open>nx\<close> and \<open>ny\<close> of the tile.
\<close>

lemma call_exact:
  assumes "ordered r"
  shows "ResidualSumOfSquares2D_call exact r b =
    Some (b\<lparr>my_rss := my_rss b
      + (\<Sum>j = my_begin (my_cols r)..<my_end (my_cols r).
           \<Sum>i = my_begin (my_rows r)..<my_end (my_rows r).
             rss_cell exact (my_A b) (my_dx b) (my_dy b) (my_elapsed b) (my_D b) (my_c b)
               (range_size (my_rows r) + 2) (range_size (my_cols r) + 2) j i 0)\<rparr>)"
  using assms unfolding ResidualSumOfSquares2D_call_def Let_def ordered_def
  by (subst rss_cell_exact_acc) (simp add: for_ne_sum2)

lemma rss_cell_exact_spec:
  "rss_cell exact A dx dy t D c nx ny j i 0
     = (analytical_spec (left_distance dx dy ny j i) t D c
         + analytical_spec (right_distance dx dy nx ny j i) t D c - A j i)\<^sup>2
       / of_int (int_mul (nx - 2) (ny - 2))"
  by (simp add: rss_cell_def Let_def analytical_value_def analytical_spec_def left_distance_def
      right_distance_def exact_def power2_eq_square mult.assoc)

lemma rss_cell_no_source:
  "rss_cell exact A dx dy t D 0 nx ny j i 0 = (A j i)\<^sup>2 / of_int (int_mul (nx - 2) (ny - 2))"
  by (simp add: rss_cell_exact_spec analytical_spec_def)

lemma int_mul_small: "0 \<le> a * b \<Longrightarrow> a * b < 2 ^ 31 \<Longrightarrow> int_mul a b = a * b"
  by (simp add: int_mul_def)

lemma run_reduce_not_divisible:
  "\<not> range2d_is_divisible r \<Longrightarrow> run_reduce sch r call split_body join_body b = call r b"
  by (cases sch) simp_all




text \<open>
  In the arithmetic of the reals the stored value is the sum, over the tiles of the
  schedule, of what each tile adds: every tile is measured and normalised by itself.
\<close>

lemma tile_rss_cong:
  "my_A b' = my_A b \<Longrightarrow> my_dx b' = my_dx b \<Longrightarrow> my_dy b' = my_dy b \<Longrightarrow>
   my_elapsed b' = my_elapsed b \<Longrightarrow> my_D b' = my_D b \<Longrightarrow> my_c b' = my_c b \<Longrightarrow>
   tile_rss b' = tile_rss b"
  by (intro ext) (simp add: tile_rss_def)

lemma run_reduce_exact:
  "ordered r \<Longrightarrow>
   run_reduce sch r (ResidualSumOfSquares2D_call exact) ResidualSumOfSquares2D_split
       (ResidualSumOfSquares2D_join exact) b
     = Some (b\<lparr>my_rss := my_rss b + sum_list (map (tile_rss b) (tiles sch r))\<rparr>)"
proof (induction sch arbitrary: r b)
  case Run
  then show ?case by (simp add: call_exact tile_rss_def)
next
  case (Split stolen lo hi)
  show ?case
  proof (cases "range2d_is_divisible r")
    case False
    with Split.prems show ?thesis by (simp add: call_exact tile_rss_def)
  next
    case True
    obtain r1 r2 where s: "range2d_split r = (r1, r2)"
      by (cases "range2d_split r")
    from range2d_split_tiles[OF Split.prems s] have o1: "ordered r1" and o2: "ordered r2"
      by auto
    let ?S1 = "sum_list (map (tile_rss b) (tiles lo r1))"
    let ?S2 = "sum_list (map (tile_rss b) (tiles hi r2))"
    let ?b1 = "b\<lparr>my_rss := my_rss b + ?S1\<rparr>"
    let ?b0 = "ResidualSumOfSquares2D_split b"
    let ?b2 = "?b0\<lparr>my_rss := my_rss ?b0 + ?S2\<rparr>"
    have t1: "tile_rss ?b1 = tile_rss b"
      by (rule tile_rss_cong) simp_all
    have t2: "tile_rss ?b0 = tile_rss b"
      by (rule tile_rss_cong) (simp_all add: ResidualSumOfSquares2D_split_def)
    have lo: "run_reduce lo r1 (ResidualSumOfSquares2D_call exact) ResidualSumOfSquares2D_split
        (ResidualSumOfSquares2D_join exact) b = Some ?b1"
      by (rule Split.IH(1)[OF o1])
    have tl: "tiles (Split stolen lo hi) r = tiles lo r1 @ tiles hi r2"
      using True s by simp
    show ?thesis
    proof (cases stolen)
      case True
      have hi: "run_reduce hi r2 (ResidualSumOfSquares2D_call exact) ResidualSumOfSquares2D_split
          (ResidualSumOfSquares2D_join exact) ?b0 = Some ?b2"
        using Split.IH(2)[OF o2, of ?b0] by (simp only: t2)
      have "ResidualSumOfSquares2D_join exact ?b1 ?b2 = b\<lparr>my_rss := my_rss b + (?S1 + ?S2)\<rparr>"
        by (simp add: ResidualSumOfSquares2D_join_def ResidualSumOfSquares2D_split_def exact_def)
      with True \<open>range2d_is_divisible r\<close> s lo hi tl show ?thesis
        by simp
    next
      case False
      have hi: "run_reduce hi r2 (ResidualSumOfSquares2D_call exact) ResidualSumOfSquares2D_split
          (ResidualSumOfSquares2D_join exact) ?b1 = Some (?b1\<lparr>my_rss := my_rss ?b1 + ?S2\<rparr>)"
        using Split.IH(2)[OF o2, of ?b1] by (simp only: t1)
      have "?b1\<lparr>my_rss := my_rss ?b1 + ?S2\<rparr> = b\<lparr>my_rss := my_rss b + (?S1 + ?S2)\<rparr>"
        by (simp add: add.assoc)
      with False \<open>range2d_is_divisible r\<close> s lo hi tl show ?thesis
        by simp
    qed
  qed
qed

lemma check_solution_exact_tiles:
  "check_solution exact sch A nx ny dx dy t D bc =
     Some (if range2d_empty (blocked_range2d 1 (ny - 1) tbb_bs 1 (nx - 1) tbb_bs) then 0
           else sum_list (map (tile_rss (ResidualSumOfSquares2D A dx dy t D (bc 1 0)))
                  (tiles sch (blocked_range2d 1 (ny - 1) tbb_bs 1 (nx - 1) tbb_bs))))"
proof (cases "range2d_empty (blocked_range2d 1 (ny - 1) tbb_bs 1 (nx - 1) tbb_bs)")
  case True
  then show ?thesis
    by (simp add: check_solution_def parallel_reduce_def ResidualSumOfSquares2D_def)
next
  case False
  then have "ordered (blocked_range2d 1 (ny - 1) tbb_bs 1 (nx - 1) tbb_bs)"
    by (auto simp: range2d_empty_def range_empty_def blocked_range2d_def ordered_def)
  from run_reduce_exact[OF this] False show ?thesis
    by (simp add: check_solution_def parallel_reduce_def)
       (simp add: ResidualSumOfSquares2D_def)
qed

text \<open>
  On a square grid whose range is handed to the operator in one piece (the schedule does
  not split, or the interior is at most 16 cells wide and cannot be split) the stored
  value is the mean squared error of the specification.
\<close>

lemma check_solution_square_one_tile:
  assumes "sch = Run \<or> n \<le> 18" "(n - 2) * (n - 2) < 2 ^ 31"
  shows "check_solution exact sch A n n dx dy t D bc = Some (rss_spec A n n dx dy t D (bc 1 0))"
proof (cases "range2d_empty (blocked_range2d 1 (n - 1) tbb_bs 1 (n - 1) tbb_bs)")
  case True
  then have "n \<le> 2"
    by (auto simp: range2d_empty_def range_empty_def blocked_range2d_def)
  then have "rss_spec A n n dx dy t D (bc 1 0) = 0"
    by (simp add: rss_spec_def)
  with True show ?thesis
    by (simp add: check_solution_def parallel_reduce_def ResidualSumOfSquares2D_def)
next
  case False
  let ?r = "blocked_range2d 1 (n - 1) tbb_bs 1 (n - 1) tbb_bs"
  let ?R = "ResidualSumOfSquares2D A dx dy t D (bc 1 0)"
  from False have n: "3 \<le> n"
    by (auto simp: range2d_empty_def range_empty_def blocked_range2d_def)
  then have o: "ordered ?r"
    by (simp add: ordered_def blocked_range2d_def)
  have "run_reduce sch ?r (ResidualSumOfSquares2D_call exact) ResidualSumOfSquares2D_split
          (ResidualSumOfSquares2D_join exact) ?R = ResidualSumOfSquares2D_call exact ?r ?R"
    using assms(1)
  proof
    assume "sch = Run"
    then show ?thesis by simp
  next
    assume "n \<le> 18"
    then have "\<not> range2d_is_divisible ?r"
      by (simp add: range2d_is_divisible_def range_is_divisible_def blocked_range2d_def
          range_size_def tbb_bs_def)
    then show ?thesis by (rule run_reduce_not_divisible)
  qed
  moreover have "int_mul (n - 2) (n - 2) = (n - 2) * (n - 2)"
    using assms(2) by (intro int_mul_small) simp_all
  moreover have "{1..<n - 1} = {1..n - 2}" by auto
  ultimately show ?thesis using False
    by (simp add: check_solution_def parallel_reduce_def call_exact[OF o] rss_cell_exact_spec)
       (simp add: ResidualSumOfSquares2D_def blocked_range2d_def range_size_def rss_spec_def)
qed

text \<open>The definitions that evaluate \<open>check_solution\<close> on a concrete grid.\<close>

lemmas check_solution_eval = check_solution_def parallel_reduce_def blocked_range2d_def
  range2d_empty_def range_empty_def range2d_is_divisible_def range_is_divisible_def
  range2d_split_def range_split_def range_size_def tbb_bs_def ordered_def
  ResidualSumOfSquares2D_def ResidualSumOfSquares2D_split_def ResidualSumOfSquares2D_join_def
  call_exact rss_cell_no_source int_mul_def exact_def const_grid_def Let_def

section \<open>The claims\<close>

subsection \<open>C1: the residual under different tilings\<close>

text \<open>
  C1 says that the value \<open>check_solution\<close> stores in \<^verbatim>\<open>*rss\<close> is the same for every
  partition of the interior into tiles, up to the reordering of floating-point sums: a
  tiled reduction gives what one pass over the whole interior gives.

  The operator computes \<open>nx\<close> and \<open>ny\<close> from the range it is handed, so a tile is
  normalised by its own number of cells, and its midline and its right wall are those
  of the tile: the stored value is the sum of \<open>tile_rss\<close> over the tiles of the schedule
  (\<open>check_solution_exact_tiles\<close>). On the 19 by 19 grid that holds 1 in every cell, with both sources at
  concentration 0, one pass over the 17 by 17 interior stores 1; the run that splits
  the range once (17 exceeds the grain size 16) stores 2, in the arithmetic of the reals.
\<close>

theorem check_solution_depends_on_tiling:
  "check_solution exact Run (const_grid 1) 19 19 1 1 1 1 (const_grid 0) = Some 1
   \<and> check_solution exact (Split True Run Run) (const_grid 1) 19 19 1 1 1 1 (const_grid 0)
       = Some 2"
  by (simp add: check_solution_eval)

subsection \<open>C2: the residual as a mean squared error\<close>

text \<open>
  C2 says that \<open>check_solution\<close> stores the sum over all interior cells \<open>(j, i)\<close>,
  \<open>1 \<le> j \<le> ny - 2\<close> and \<open>1 \<le> i \<le> nx - 2\<close>, of \<open>(ca - A[j][i])\<^sup>2 / ((nx - 2) (ny - 2))\<close>,
  where \<open>ca\<close> superposes the analytical solutions at the distances to the left-wall and
  to the right-wall source: the value \<open>rss_spec\<close>.

  The code stores that value when the range reaches the operator in one piece and the
  grid is square (\<open>check_solution_square_one_tile\<close>). When the range is split it does
  not: on the grid of C1 the mean squared error is 1 and the stored value is 2, also
  when one body object runs both tiles.
\<close>

theorem check_solution_split_is_not_mean_square:
  "check_solution exact (Split False Run Run) (const_grid 1) 19 19 1 1 1 1 (const_grid 0)
     = Some 2
   \<and> rss_spec (const_grid 1) 19 19 1 1 1 1 0 = 1"
proof
  show "check_solution exact (Split False Run Run) (const_grid 1) 19 19 1 1 1 1 (const_grid 0)
      = Some 2"
    by (simp add: check_solution_eval)
  show "rss_spec (const_grid 1) 19 19 1 1 1 1 0 = 1"
    by (simp add: rss_spec_def analytical_spec_def const_grid_def)
qed

subsection \<open>C3: the convolution at every interior cell\<close>

text \<open>
  C3 says that \<open>compute_convolution\<close> writes the convolution sum into \<^verbatim>\<open>C[j][i]\<close> for
  every interior cell, \<open>1 \<le> j \<le> ny - 2\<close> and \<open>1 \<le> i \<le> nx - 2\<close>.

  The cells written are those with \<open>1 \<le> j \<le> nx - 2\<close> and \<open>1 \<le> i \<le> ny - 2\<close>
  (\<open>compute_convolution_cells\<close>): the same cells on a square grid
  (\<open>compute_convolution_square\<close>, with \<open>conv_value_exact\<close> for the sum), other cells
  otherwise. With \<open>nx = 3\<close> and \<open>ny = 4\<close>, a field of zeros and an output buffer that
  holds 7, the interior cell \<open>(2, 1)\<close> is never written: it keeps 7, where the
  convolution sum is 0. This holds for every rounding and every schedule.
\<close>

theorem compute_convolution_skips_interior_cell:
  "read_cell (compute_convolution fl sch (const_grid 0) (const_grid 7)
       (snd (set_mask exact 1 1 (const_grid 0))) 3 4 1) 2 1 = Some 7
   \<and> interior 3 4 2 1
   \<and> conv_spec (const_grid 0) (snd (set_mask exact 1 1 (const_grid 0))) 1 2 1 = 0"
  by (simp add: read_cell_def compute_convolution_cells interior_def conv_spec_def const_grid_def)

subsection \<open>C4: the explicit Euler step\<close>

text \<open>
  C4 says that \<open>step_in_time\<close> writes \<open>A[j][i] + dt D C[j][i]\<close> into \<^verbatim>\<open>B[j][i]\<close> for every
  interior cell, \<open>1 \<le> j \<le> ny - 2\<close> and \<open>1 \<le> i \<le> nx - 2\<close>, and adds \<open>dt\<close> to
  \<^verbatim>\<open>*elapsed\<close> once.

  The time is advanced as claimed, and on a square grid the cells are the interior
  cells (\<open>step_in_time_square\<close>). The range is the one of C3, so with \<open>nx = 3\<close> and
  \<open>ny = 4\<close> the interior cell \<open>(2, 1)\<close> is not written: with \<open>A = C = 1\<close> everywhere and
  \<open>dt = D = 1\<close> it keeps the 0 the buffer held, where the claim requires 2.
\<close>

theorem step_in_time_skips_interior_cell:
  "read_step (step_in_time exact sch (const_grid 1) (const_grid 0) (const_grid 1) 3 4 1 1 0) 2 1
     = Some (0, 1)
   \<and> interior 3 4 2 1"
  by (simp add: read_step_def step_in_time_cells interior_def const_grid_def exact_def)

subsection \<open>C5: the coefficients of the mask\<close>

text \<open>
  C5 says that for positive \<open>dx\<close> and \<open>dy\<close> \<open>set_mask\<close> produces a 3 by 3 grid with centre
  \<open>-2 (dx\<^sup>2 + dy\<^sup>2) / (dx\<^sup>2 dy\<^sup>2)\<close>, vertical neighbours \<open>1 / dy\<^sup>2\<close>, horizontal neighbours
  \<open>1 / dx\<^sup>2\<close> and corners zero, and that it returns the radius 1.

  The function writes five entries and leaves the corners as the caller's buffer held
  them (its comment says that the buffer is initialised to zero). As stated the claim
  fails for a buffer that holds 5 everywhere on entry.
\<close>

theorem set_mask_corner_counterexample:
  "snd (set_mask exact 1 1 (const_grid 5)) 0 0 \<noteq> 0"
  by (simp add: set_mask_def store_def const_grid_def)

text \<open>
  C5, amended: for positive \<open>dx\<close> and \<open>dy\<close>, in the arithmetic of the reals, \<open>set_mask\<close>
  returns the radius 1 and writes the centre and the four neighbours as claimed; the
  four corners keep the values the buffer held on entry, so they are zero when the
  caller has zeroed the buffer.
\<close>

theorem set_mask_entries:
  assumes "0 < dx" "0 < dy" "set_mask exact dx dy M = (nm, M')"
  shows "nm = 1
     \<and> M' 1 1 = - 2 * (dx\<^sup>2 + dy\<^sup>2) / (dx\<^sup>2 * dy\<^sup>2)
     \<and> M' 0 1 = 1 / dy\<^sup>2 \<and> M' 2 1 = 1 / dy\<^sup>2
     \<and> M' 1 0 = 1 / dx\<^sup>2 \<and> M' 1 2 = 1 / dx\<^sup>2
     \<and> M' 0 0 = M 0 0 \<and> M' 0 2 = M 0 2 \<and> M' 2 0 = M 2 0 \<and> M' 2 2 = M 2 2"
  using assms(3)
  by (auto simp: set_mask_def exact_def store_def Let_def power2_eq_square)

text \<open>The amended C5 at \<open>dx = 1\<close>, \<open>dy = 2\<close> and a zeroed buffer.\<close>

theorem set_mask_entries_witness:
  "fst (set_mask exact 1 2 (const_grid 0)) = 1
     \<and> snd (set_mask exact 1 2 (const_grid 0)) 1 1 = - (5 / 2)
     \<and> snd (set_mask exact 1 2 (const_grid 0)) 0 1 = 1 / 4
     \<and> snd (set_mask exact 1 2 (const_grid 0)) 1 0 = 1
     \<and> snd (set_mask exact 1 2 (const_grid 0)) 0 0 = 0"
  using set_mask_entries[of 1 2 "const_grid 0" "fst (set_mask exact 1 2 (const_grid 0))"
      "snd (set_mask exact 1 2 (const_grid 0))"]
  by (simp add: const_grid_def)

subsection \<open>C6: the coefficients sum to zero\<close>

text \<open>
  C6 says that for positive \<open>dx\<close> and \<open>dy\<close> the \<open>(2 nm + 1)\<^sup>2\<close> coefficients of the mask
  \<open>set_mask\<close> produces sum to zero up to rounding, the centre cancelling the four
  neighbours.

  The sum runs over the corners too, which \<open>set_mask\<close> does not write. As stated the
  claim fails for a buffer that holds 1 everywhere on entry: the coefficients sum to 4.
\<close>

theorem mask_sum_counterexample:
  "mask_sum (snd (set_mask exact 1 1 (const_grid 1))) (fst (set_mask exact 1 1 (const_grid 1)))
     = 4"
  by (simp add: set_mask_def mask_sum_1) (simp add: store_def const_grid_def exact_def)

text \<open>
  C6, amended: for positive \<open>dx\<close> and \<open>dy\<close>, in the arithmetic of the reals, the five
  coefficients \<open>set_mask\<close> writes sum to zero, so the sum of all nine coefficients is the
  sum of the four corner values the buffer held on entry: zero when the caller has
  zeroed the buffer.
\<close>

theorem mask_sum_corners:
  assumes "0 < dx" "0 < dy" "set_mask exact dx dy M = (nm, M')"
  shows "M' 0 1 + M' 1 0 + M' 1 1 + M' 1 2 + M' 2 1 = 0
     \<and> mask_sum M' nm = M 0 0 + M 0 2 + M 2 0 + M 2 2"
proof -
  from set_mask_exact_entries[OF assms(3)]
  have e: "nm = 1" "M' 0 1 = 1 / (dy * dy)" "M' 2 1 = 1 / (dy * dy)"
    "M' 1 0 = 1 / (dx * dx)" "M' 1 2 = 1 / (dx * dx)"
    "M' 1 1 = - 2 * (dx * dx + dy * dy) / (dx * dx * dy * dy)"
    "M' 0 0 = M 0 0" "M' 0 2 = M 0 2" "M' 2 0 = M 2 0" "M' 2 2 = M 2 2"
    by auto
  have five: "M' 0 1 + M' 1 0 + M' 1 1 + M' 1 2 + M' 2 1 = 0"
    using assms(1,2) unfolding e by (simp add: field_simps)
  have "mask_sum M' nm
      = (M' 0 1 + M' 1 0 + M' 1 1 + M' 1 2 + M' 2 1) + (M' 0 0 + M' 0 2 + M' 2 0 + M' 2 2)"
    unfolding e(1) mask_sum_1 by simp
  with five show ?thesis by (simp add: e)
qed

text \<open>The amended C6 at \<open>dx = 1\<close>, \<open>dy = 3\<close> and a zeroed buffer: the sum is zero.\<close>

theorem mask_sum_corners_witness:
  "mask_sum (snd (set_mask exact 1 3 (const_grid 0))) (fst (set_mask exact 1 3 (const_grid 0)))
     = 0"
  using mask_sum_corners[of 1 3 "const_grid 0" "fst (set_mask exact 1 3 (const_grid 0))"
      "snd (set_mask exact 1 3 (const_grid 0))"]
  by (simp add: const_grid_def)

subsection \<open>C7: a constant field has no Laplacian\<close>

text \<open>
  C7 says that for a field that holds one value in every cell, halo included, for every
  mask \<open>set_mask\<close> produces from positive \<open>dx\<close> and \<open>dy\<close> and for every \<open>nx\<close> and \<open>ny\<close>,
  \<open>compute_convolution\<close> yields exactly 0 at every interior cell.

  In double precision the coefficients are rounded and so is every step of the sum.
  For \<open>dx = 1\<close>, \<open>dy = 3\<close>, the field that holds 1 and a 3 by 3 grid, with the mask built
  in a zeroed buffer, the value at the interior cell \<open>(1, 1)\<close> is \<open>-2\<^bsup>-54\<^esup>\<close>, not 0.
\<close>

theorem constant_field_binary64_counterexample:
  "read_cell (compute_convolution binary64 Run (const_grid 1) (const_grid 0)
       (snd (set_mask binary64 1 3 (const_grid 0))) 3 3
       (fst (set_mask binary64 1 3 (const_grid 0)))) 1 1
     = Some (- (1 / 2 ^ 54))"
proof -
  have nm: "fst (set_mask binary64 1 3 (const_grid 0)) = 1"
    by (simp add: set_mask_def)
  have "conv_value binary64 (const_grid 1) (snd (set_mask binary64 1 3 (const_grid 0))) 1 1 1
      = - (1 / 2 ^ 54)"
    unfolding conv_value_1 mask_1_3
    by (simp add: const_grid_def binary64_numeral rne_numeral)
  then show ?thesis
    by (simp add: read_cell_def compute_convolution_cells nm)
qed

text \<open>
  C7, amended: for a field that holds one value in every cell, halo included, for the
  mask \<open>set_mask\<close> builds from positive \<open>dx\<close> and \<open>dy\<close> in a zeroed buffer, and for a
  square grid \<open>nx = ny\<close>, \<open>compute_convolution\<close> yields 0 at every interior cell in the
  arithmetic of the reals, under every schedule; in double precision the value is zero
  up to rounding only.
\<close>

theorem constant_field_zero:
  assumes "0 < dx" "0 < dy" "set_mask exact dx dy (const_grid 0) = (nm, M)" "interior n n j i"
  shows "read_cell (compute_convolution exact sch (const_grid v) C M n n nm) j i = Some 0"
proof -
  from set_mask_exact_entries[OF assms(3)]
  have e: "nm = 1" "M 0 1 = 1 / (dy * dy)" "M 2 1 = 1 / (dy * dy)"
    "M 1 0 = 1 / (dx * dx)" "M 1 2 = 1 / (dx * dx)"
    "M 1 1 = - 2 * (dx * dx + dy * dy) / (dx * dx * dy * dy)"
    "M 0 0 = 0" "M 0 2 = 0" "M 2 0 = 0" "M 2 2 = 0"
    by (auto simp: const_grid_def)
  have "conv_value exact (const_grid v) M 1 j i = 0"
    unfolding conv_value_1 e using assms(1,2)
    by (simp add: exact_def const_grid_def field_simps)
  with assms(4) show ?thesis
    by (simp add: read_cell_def compute_convolution_cells e(1) interior_def)
qed

text \<open>The amended C7 at the input of the counterexample, in the arithmetic of the reals.\<close>

theorem constant_field_zero_witness:
  "read_cell (compute_convolution exact Run (const_grid 1) (const_grid 7)
       (snd (set_mask exact 1 3 (const_grid 0))) 3 3
       (fst (set_mask exact 1 3 (const_grid 0)))) 1 1 = Some 0"
  using constant_field_zero[of 1 3 "fst (set_mask exact 1 3 (const_grid 0))"
      "snd (set_mask exact 1 3 (const_grid 0))" 3 1 1 Run 1 "const_grid 7"]
  by (simp add: interior_def)

subsection \<open>C8: no diffusion, no change\<close>

text \<open>
  C8 says that with \<open>D = 0\<close> \<open>step_in_time\<close> produces \<^verbatim>\<open>B[j][i]\<close> equal to \<^verbatim>\<open>A[j][i]\<close> at
  every interior cell, for every field, every Laplacian field and every time step.

  A cell the functor visits receives \<open>A[j][i]\<close> when \<open>D = 0\<close>, and on a square grid the
  cells visited are the interior cells (\<open>step_in_time_square_zero_diffusivity\<close>). The range is the one
  of C3 and C4: with \<open>nx = 3\<close> and \<open>ny = 4\<close> the interior cell \<open>(2, 1)\<close> is not visited
  and keeps the 0 the buffer held, where \<open>A\<close> holds 1. This holds for every rounding and
  every schedule.
\<close>

theorem step_in_time_zero_diffusivity_skips_cell:
  "read_step (step_in_time fl sch (const_grid 1) (const_grid 0) (const_grid 5) 3 4 0 1 0) 2 1
     = Some (0, fl 1)
   \<and> interior 3 4 2 1"
  by (simp add: read_step_def step_in_time_cells interior_def const_grid_def)

subsection \<open>C9: the analytical solution\<close>



subsection \<open>C10: the residual reads one boundary value\<close>



end
